theory Spec2Isabelle
  imports Complex_Main "HOL-Library.Sublist"
begin

section \<open>Python values, exceptions and messages\<close>

text \<open>
  The repository's source is the notebook \<^verbatim>\<open>notebooks/planning_pattern.ipynb\<close>: three
  tools, the registry \<^verbatim>\<open>available_tools\<close> and the ReAct loop written out cell by cell.
  The notebook imports \<^verbatim>\<open>extract_tag_content\<close>, the \<^verbatim>\<open>tool\<close> decorator and
  \<^verbatim>\<open>ReactAgent\<close> from the package \<^verbatim>\<open>agentic_patterns\<close>, whose files are not part of the
  source at hand; those three are modelled from the specification and marked so.

  The values the tools take and return: the parameters are declared \<^verbatim>\<open>int\<close> (unbounded),
  the results \<^verbatim>\<open>int\<close> and \<^verbatim>\<open>float | str\<close>. A Python float is idealised as a real number:
  rounding to a double is not modelled.
\<close>

datatype py_value = PyInt int | PyFloat real | PyStr string

text \<open>Exceptions are values: every raise of the code is an \<open>Inl\<close> of the model.\<close>

datatype py_error =
    IndexError
  | KeyError string
  | TypeError string
  | JSONDecodeError
  | AssertionError
  | ValueError
  | ModelClientError string
  | ArgumentError string
  | ToolExecutionError string
  | IterationBudgetExceeded
  | MalformedToolCall string

text \<open>
  A message of the conversation is the dict \<^verbatim>\<open>{"role": ..., "content": ...}\<close>; the
  role is the string the code writes.
\<close>

record message =
  role :: string
  content :: string

section \<open>The tag extractor\<close>

text \<open>
  Modelled from the spec: \<^verbatim>\<open>extract_tag_content\<close> of
  \<^verbatim>\<open>agentic_patterns.utils.extraction\<close>, which the notebook imports and whose file is
  missing. Section 4.1: locate all non-overlapping occurrences of the tag pair
  \<^verbatim>\<open><tag>...</tag>\<close> in the text and return their inner contents in order of
  appearance; matching is case-sensitive and crosses newlines; an absent tag gives an empty
  sequence; an opening tag with no closing tag is not a match.

  The scan goes left to right: the first opening tag, then the first closing tag after it;
  what lies between is a match, and the scan goes on behind the closing tag.
  \<open>split_at_first pat s\<close> finds the first (leftmost) occurrence of \<open>pat\<close> in \<open>s\<close> and
  returns the text before it and the text after it.
\<close>

fun split_at_first :: "string \<Rightarrow> string \<Rightarrow> (string \<times> string) option" where
  "split_at_first pat [] = (if pat = [] then Some ([], []) else None)"
| "split_at_first pat (c # cs) =
     (if prefix pat (c # cs) then Some ([], drop (length pat) (c # cs))
      else (case split_at_first pat cs of
              None \<Rightarrow> None
            | Some (before, after) \<Rightarrow> Some (c # before, after)))"

definition open_tag :: "string \<Rightarrow> string" where
  "open_tag tag = ''<'' @ tag @ ''>''"

definition close_tag :: "string \<Rightarrow> string" where
  "close_tag tag = ''</'' @ tag @ ''>''"

lemma split_at_first_decomp:
  "split_at_first pat s = Some (before, after) \<Longrightarrow> s = before @ pat @ after"
proof (induction s arbitrary: before after)
  case Nil
  then show ?case by (simp split: if_splits)
next
  case (Cons c cs)
  show ?case
  proof (cases "prefix pat (c # cs)")
    case True
    with Cons.prems have "before = []" "after = drop (length pat) (c # cs)" by simp_all
    moreover from True have "c # cs = pat @ drop (length pat) (c # cs)"
      by (metis append_eq_conv_conj prefixE)
    ultimately show ?thesis by simp
  next
    case False
    with Cons.prems obtain b where b: "split_at_first pat cs = Some (b, after)" "before = c # b"
      by (auto split: option.splits)
    from Cons.IH[OF b(1)] b(2) show ?thesis by simp
  qed
qed

lemma split_at_first_shorter:
  "split_at_first pat s = Some (before, after) \<Longrightarrow> length after + length pat \<le> length s"
  by (drule split_at_first_decomp) simp

text \<open>
  Modelled from the spec: the matches of \<^verbatim>\<open>extract_tag_content\<close> (section 4.1), by the
  scan described above.
\<close>

function tag_matches :: "string \<Rightarrow> string \<Rightarrow> string list" where
  "tag_matches tag text =
     (case split_at_first (open_tag tag) text of
        None \<Rightarrow> []
      | Some (before, rest) \<Rightarrow>
          (case split_at_first (close_tag tag) rest of
             None \<Rightarrow> []
           | Some (inner, rest') \<Rightarrow> inner # tag_matches tag rest'))"
  by pat_completeness auto
termination
proof (relation "measure (\<lambda>(tag, text). length text)")
  show "wf (measure (\<lambda>(tag, text). length text))" by simp
next
  fix tg s x2 pre rest x2a inner rest'
  assume a: "split_at_first (open_tag tg) s = Some x2" "(pre, rest) = x2"
    "split_at_first (close_tag tg) rest = Some x2a" "(inner, rest') = x2a"
  from a(1,2) have "length rest + length (open_tag tg) \<le> length s"
    using split_at_first_shorter[of "open_tag tg" s pre rest] by simp
  moreover from a(3,4) have "length rest' + length (close_tag tg) \<le> length rest"
    using split_at_first_shorter[of "close_tag tg" rest inner rest'] by simp
  ultimately have "length rest' < length s"
    by (simp add: open_tag_def)
  then show "((tg, rest'), (tg, s)) \<in> measure (\<lambda>(tag, text). length text)" by simp
qed

declare tag_matches.simps [simp del]

text \<open>
  Modelled from the spec: the result of the extraction (the spec's ExtractionResult), the
  tag asked for and the matches. The notebook reads the matches as the field
  \<^verbatim>\<open>content\<close>; here that name is the message's.
\<close>

record tag_content_result =
  tag :: string
  matches :: "string list"

definition extract_tag_content :: "string \<Rightarrow> string \<Rightarrow> tag_content_result" where
  "extract_tag_content text tg = \<lparr>tag = tg, matches = tag_matches tg text\<rparr>"

section \<open>The tools of the notebook\<close>

text \<open>
  \<^verbatim>\<open>def sum_two_elements(a: int, b: int) -> int: return a + b\<close>,
  \<^verbatim>\<open>def multiply_two_elements(a: int, b: int) -> int: return a * b\<close> and
  \<^verbatim>\<open>def compute_log(x: int) -> float | str\<close>, which returns a sentence for \<open>x \<le> 0\<close>
  and \<^verbatim>\<open>math.log(x)\<close> otherwise. None of the three raises on integers.
\<close>

definition sum_two_elements :: "int \<Rightarrow> int \<Rightarrow> int" where
  "sum_two_elements a b = a + b"

definition multiply_two_elements :: "int \<Rightarrow> int \<Rightarrow> int" where
  "multiply_two_elements a b = a * b"

definition compute_log :: "int \<Rightarrow> py_value" where
  "compute_log x =
     (if x \<le> 0 then PyStr ''Logarithm is undefined for values less than or equal to 0.''
      else PyFloat (ln (real_of_int x)))"

text \<open>
  A tool call as parsed from the model's text, \<^verbatim>\<open>{"name": ..., "arguments": {...}, "id": ...}\<close>.
  The arguments are a dict from parameter names to values (an association list read with
  \<open>map_of\<close>); the values are integers, the declared type of every parameter of the three
  tools. The field \<^verbatim>\<open>id\<close> is named \<open>call_id\<close> here.
\<close>

record tool_call =
  name :: string
  arguments :: "(string \<times> int) list"
  call_id :: int

text \<open>
  A Tool object as the notebook uses it: \<^verbatim>\<open>.name\<close> and \<^verbatim>\<open>.run(**kwargs)\<close>.
\<close>

record tool =
  tool_name :: string
  run :: "(string \<times> int) list \<Rightarrow> py_error + py_value"

text \<open>A Python function of one or two named integer parameters.\<close>

datatype callable =
    Unary string "int \<Rightarrow> py_value"
  | Binary string string "int \<Rightarrow> int \<Rightarrow> py_value"

text \<open>
  Modelled from the spec: the \<^verbatim>\<open>tool\<close> decorator of
  \<^verbatim>\<open>agentic_patterns.tool_pattern.tool\<close> and the \<^verbatim>\<open>run\<close> method of the Tool it builds,
  whose file is missing. Section 4.2: the invocation checks that every required parameter is
  present (ArgumentError otherwise), coerces nothing, calls the wrapped callable with the
  arguments, and labels an exception of the callable a ToolExecutionError. The callable,
  called with a keyword it does not declare, raises Python's TypeError.
\<close>

fun invoke :: "callable \<Rightarrow> (string \<times> int) list \<Rightarrow> py_error + py_value" where
  "invoke (Unary p f) kwargs =
     (case map_of kwargs p of
        None \<Rightarrow> Inl (ArgumentError p)
      | Some x \<Rightarrow>
          if list_all (\<lambda>kv. fst kv = p) kwargs then Inr (f x)
          else Inl (ToolExecutionError ''TypeError''))"
| "invoke (Binary p q f) kwargs =
     (case map_of kwargs p of
        None \<Rightarrow> Inl (ArgumentError p)
      | Some x \<Rightarrow>
          (case map_of kwargs q of
             None \<Rightarrow> Inl (ArgumentError q)
           | Some y \<Rightarrow>
               if list_all (\<lambda>kv. fst kv = p \<or> fst kv = q) kwargs then Inr (f x y)
               else Inl (ToolExecutionError ''TypeError'')))"

text \<open>
  Modelled from the spec: the Tool that the decorator makes of a function, under the
  function's name.
\<close>

definition tool_of :: "string \<Rightarrow> callable \<Rightarrow> tool" where
  "tool_of nm c = \<lparr>tool_name = nm, run = invoke c\<rparr>"

text \<open>The three functions of the notebook under their \<^verbatim>\<open>@tool\<close> decorator.\<close>

definition sum_two_elements_tool :: tool where
  "sum_two_elements_tool =
     tool_of ''sum_two_elements'' (Binary ''a'' ''b'' (\<lambda>a b. PyInt (sum_two_elements a b)))"

definition multiply_two_elements_tool :: tool where
  "multiply_two_elements_tool =
     tool_of ''multiply_two_elements''
       (Binary ''a'' ''b'' (\<lambda>a b. PyInt (multiply_two_elements a b)))"

definition compute_log_tool :: tool where
  "compute_log_tool = tool_of ''compute_log'' (Unary ''x'' compute_log)"

text \<open>The dict \<^verbatim>\<open>available_tools\<close> of the notebook.\<close>

definition available_tools :: "(string \<times> tool) list" where
  "available_tools =
     [(''sum_two_elements'', sum_two_elements_tool),
      (''multiply_two_elements'', multiply_two_elements_tool),
      (''compute_log'', compute_log_tool)]"

section \<open>The ReAct loop of the notebook, cell by cell\<close>

text \<open>
  What the cells call outside the repository is a parameter:
  \<^item> \<open>create\<close>: \<^verbatim>\<open>GROQ_CLIENT.chat.completions.create(messages=chat_history,
    model=MODEL).choices[0].message.content\<close>, the model's reply to the conversation, or the
    exception of the client;
  \<^item> \<open>json_loads\<close>: \<^verbatim>\<open>json.loads\<close> on a text of the wire format, an object with
    the keys \<^verbatim>\<open>name\<close>, \<^verbatim>\<open>arguments\<close> and \<^verbatim>\<open>id\<close>, read as a \<open>tool_call\<close>;
    \<open>Inl\<close> is the exception raised on any other text (by \<^verbatim>\<open>json.loads\<close> itself,
    which also refuses an integer of more than 4300 digits, or by the reads
    \<^verbatim>\<open>tool_call["name"]\<close> and \<^verbatim>\<open>tool_call["arguments"]\<close> of the next cell, which
    nothing catches either);
  \<^item> \<open>float_str\<close>: how Python formats a float in an f-string.
\<close>

record externals =
  create :: "message list \<Rightarrow> py_error + string"
  json_loads :: "string \<Rightarrow> py_error + tool_call"
  float_str :: "real \<Rightarrow> string"

text \<open>
  The decimal digits of an integer, with a minus sign when it is negative.
\<close>

function decimal_nat :: "nat \<Rightarrow> string" where
  "decimal_nat n =
     (if n < 10 then [''0123456789'' ! n]
      else decimal_nat (n div 10) @ [''0123456789'' ! (n mod 10)])"
  by pat_completeness auto
termination
  by (relation "measure (\<lambda>n. n)") auto

declare decimal_nat.simps [simp del]

definition decimal_int :: "int \<Rightarrow> string" where
  "decimal_int i = (if i < 0 then CHR ''-'' # decimal_nat (nat (- i)) else decimal_nat (nat i))"

text \<open>
  Python's \<^verbatim>\<open>str\<close> of an integer, which the f-string of the observation cell calls.
  CPython 3.11, the kernel of the notebook (\<^verbatim>\<open>language_info\<close> version 3.11.3), converts no
  integer of more than \<^verbatim>\<open>sys.int_max_str_digits\<close> digits, 4300 unless set otherwise, and
  raises ValueError instead; the minus sign does not count.
\<close>

definition int_max_str_digits :: nat where
  "int_max_str_digits = 4300"

definition str_int :: "int \<Rightarrow> py_error + string" where
  "str_int i =
     (if int_max_str_digits < length (decimal_nat (nat \<bar>i\<bar>)) then Inl ValueError
      else Inr (decimal_int i))"

text \<open>
  The text of a value: the digits of an int, a str as it is, a float as \<open>float_str\<close>
  prints it.
\<close>

fun py_str :: "externals \<Rightarrow> py_value \<Rightarrow> string" where
  "py_str ext (PyInt i) = decimal_int i"
| "py_str ext (PyFloat r) = float_str ext r"
| "py_str ext (PyStr s) = s"

text \<open>
  What an f-string does for \<^verbatim>\<open>{tool_result}\<close>: the conversion of the value to its text,
  which raises for an int of too many digits.
\<close>

fun format_value :: "externals \<Rightarrow> py_value \<Rightarrow> py_error + string" where
  "format_value ext (PyInt i) = str_int i"
| "format_value ext (PyFloat r) = Inr (float_str ext r)"
| "format_value ext (PyStr s) = Inr s"

text \<open>The values whose conversion raises: the ints of more digits than the limit.\<close>

fun exceeds_str_digits :: "py_value \<Rightarrow> bool" where
  "exceeds_str_digits (PyInt i) = (int_max_str_digits < length (decimal_nat (nat \<bar>i\<bar>)))"
| "exceeds_str_digits _ = False"

text \<open>
  \<^verbatim>\<open>chat_history.append({"role": "assistant", "content": output})\<close>
\<close>

definition append_assistant :: "message list \<Rightarrow> string \<Rightarrow> message list" where
  "append_assistant chat_history output =
     chat_history @ [\<lparr>role = ''assistant'', content = output\<rparr>]"

text \<open>
  \<^verbatim>\<open>tool_call.content[0]\<close>: indexing an empty list raises IndexError.
\<close>

definition first_match :: "tag_content_result \<Rightarrow> py_error + string" where
  "first_match r = (case matches r of [] \<Rightarrow> Inl IndexError | m # _ \<Rightarrow> Inr m)"

text \<open>
  \<^verbatim>\<open>tool_call = extract_tag_content(output, tag="tool_call")\<close>, then
  \<^verbatim>\<open>tool_call = json.loads(tool_call.content[0])\<close>
\<close>

definition parse_tool_call :: "externals \<Rightarrow> string \<Rightarrow> py_error + tool_call" where
  "parse_tool_call ext output =
     (case first_match (extract_tag_content output ''tool_call'') of
        Inl e \<Rightarrow> Inl e
      | Inr m \<Rightarrow> json_loads ext m)"

text \<open>
  \<^verbatim>\<open>tool_result = available_tools[tool_call["name"]].run(**tool_call["arguments"])\<close>:
  a name that is not a key of the dict raises KeyError.
\<close>

definition call_tool :: "(string \<times> tool) list \<Rightarrow> tool_call \<Rightarrow> py_error + py_value" where
  "call_tool tools tc =
     (case map_of tools (name tc) of
        None \<Rightarrow> Inl (KeyError (name tc))
      | Some t \<Rightarrow> run t (arguments tc))"

text \<open>
  \<^verbatim>\<open>chat_history.append({"role": "user",
     "content": f"<observation>{tool_result}</observation>"})\<close>: the f-string is built
  first, and when it raises nothing is appended.
\<close>

definition append_observation ::
  "externals \<Rightarrow> message list \<Rightarrow> py_value \<Rightarrow> py_error + message list"
where
  "append_observation ext chat_history tool_result =
     (case format_value ext tool_result of
        Inl e \<Rightarrow> Inl e
      | Inr s \<Rightarrow>
          Inr (chat_history @
                 [\<lparr>role = ''user'',
                   content = ''<observation>'' @ s @ ''</observation>''\<rparr>]))"

text \<open>
  The first half of an iteration: request the model's reply, append it, extract and parse
  the tool call, look the tool up and run it. The result is the conversation as the cells
  leave it, and the tool's result or the exception that ended the cells.
\<close>

definition act ::
  "externals \<Rightarrow> (string \<times> tool) list \<Rightarrow> message list \<Rightarrow> message list \<times> (py_error + py_value)"
where
  "act ext tools chat_history =
     (case create ext chat_history of
        Inl e \<Rightarrow> (chat_history, Inl e)
      | Inr output \<Rightarrow>
          (append_assistant chat_history output,
           (case parse_tool_call ext output of
              Inl e \<Rightarrow> Inl e
            | Inr tc \<Rightarrow> call_tool tools tc)))"

text \<open>
  One iteration of the loop, as the cells repeat it for any reply: the cells of the first
  half, then the observation appended. The assert that the walkthrough puts between the two
  states what its example expects of the tool's result; it is part of \<open>checked_step\<close>
  below.
\<close>

definition react_step ::
  "externals \<Rightarrow> (string \<times> tool) list \<Rightarrow> message list \<Rightarrow> message list \<times> (py_error + py_value)"
where
  "react_step ext tools chat_history =
     (case act ext tools chat_history of
        (h, Inl e) \<Rightarrow> (h, Inl e)
      | (h, Inr tool_result) \<Rightarrow>
          (case append_observation ext h tool_result of
             Inl e \<Rightarrow> (h, Inl e)
           | Inr h' \<Rightarrow> (h', Inr tool_result)))"

text \<open>
  The walkthrough has an \<^verbatim>\<open>assert tool_result == ...\<close> between the tool's run and the
  observation, with the value its example expects at that point: \<^verbatim>\<open>1234 + 5678\<close>, then
  \<^verbatim>\<open>(1234 + 5678) * 5\<close>, then \<^verbatim>\<open>math.log((1234 + 5678) * 5)\<close>. \<open>py_eq\<close> is Python's
  \<^verbatim>\<open>==\<close> on these values, and \<open>checked_step\<close> is the iteration with its assert.
\<close>

fun py_eq :: "py_value \<Rightarrow> py_value \<Rightarrow> bool" where
  "py_eq (PyInt i) (PyInt j) = (i = j)"
| "py_eq (PyInt i) (PyFloat r) = (real_of_int i = r)"
| "py_eq (PyFloat r) (PyInt i) = (r = real_of_int i)"
| "py_eq (PyFloat r) (PyFloat q) = (r = q)"
| "py_eq (PyStr s) (PyStr t) = (s = t)"
| "py_eq _ _ = False"

definition checked_step ::
  "externals \<Rightarrow> (string \<times> tool) list \<Rightarrow> py_value \<Rightarrow> message list
     \<Rightarrow> message list \<times> (py_error + py_value)"
where
  "checked_step ext tools expected chat_history =
     (case act ext tools chat_history of
        (h, Inl e) \<Rightarrow> (h, Inl e)
      | (h, Inr tool_result) \<Rightarrow>
          if py_eq tool_result expected
          then (case append_observation ext h tool_result of
                  Inl e \<Rightarrow> (h, Inl e)
                | Inr h' \<Rightarrow> (h', Inr tool_result))
          else (h, Inl AssertionError))"

text \<open>
  The starting conversation: the system prompt (rendered with the tools' signatures) and
  the question.
\<close>

definition initial_history :: "string \<Rightarrow> string \<Rightarrow> message list" where
  "initial_history system_prompt user_question =
     [\<lparr>role = ''system'', content = system_prompt\<rparr>,
      \<lparr>role = ''user'', content = ''<question>'' @ user_question @ ''</question>''\<rparr>]"

text \<open>
  The whole walkthrough, cells in order: three checked iterations (Steps 1 to 6) and the
  last request (Step 7), whose reply is printed. An exception ends it where it is raised.
\<close>

definition walkthrough ::
  "externals \<Rightarrow> string \<Rightarrow> string \<Rightarrow> message list \<times> (py_error + string)"
where
  "walkthrough ext system_prompt user_question =
     (case checked_step ext available_tools (PyInt (1234 + 5678))
             (initial_history system_prompt user_question) of
        (h1, Inl e) \<Rightarrow> (h1, Inl e)
      | (h1, Inr _) \<Rightarrow>
          (case checked_step ext available_tools (PyInt ((1234 + 5678) * 5)) h1 of
             (h2, Inl e) \<Rightarrow> (h2, Inl e)
           | (h2, Inr _) \<Rightarrow>
               (case checked_step ext available_tools
                       (PyFloat (ln (real_of_int ((1234 + 5678) * 5)))) h2 of
                  (h3, Inl e) \<Rightarrow> (h3, Inl e)
                | (h3, Inr _) \<Rightarrow> (h3, create ext h3))))"

section \<open>The agent loop of the library\<close>

text \<open>
  Modelled from the spec: \<^verbatim>\<open>ReactAgent\<close> of
  \<^verbatim>\<open>agentic_patterns.planning_pattern.react_agent\<close>, which the notebook imports and
  calls (\<^verbatim>\<open>agent.run(user_msg=...)\<close>) and whose file is missing. Section 4.4, per
  iteration: send the conversation to the model client and append the reply as an assistant
  message; a \<^verbatim>\<open>response\<close> tag ends the run with its content; otherwise a missing
  \<^verbatim>\<open>tool_call\<close> tag or one that does not parse is a stall; an unknown tool, a bad
  argument list and a failing tool become observations and the loop goes on; a tool's result
  becomes an observation; the number of iterations is bounded by a configured maximum, and
  exceeding it is fatal. Section 7: a stall is retried with a corrective note a configured
  number of times (once, or not at all) and is fatal after that; an error of the model
  client is fatal.
\<close>

record agent_config =
  max_iterations :: nat
  stall_retries :: nat

text \<open>
  Modelled from the spec: the default configuration, a maximum of 10 iterations (section
  4.4, step 8) and one retry of a stall (section 4.4, step 3).
\<close>

definition default_config :: agent_config where
  "default_config = \<lparr>max_iterations = 10, stall_retries = 1\<rparr>"

text \<open>
  Modelled from the spec: AgentRun (section 3), the messages and the iteration counter, with
  the stalls retried so far; the outcome of a run, the final answer or the fatal error; and
  what an iteration leaves, a run to go on with or the outcome.
\<close>

record agent_run =
  messages :: "message list"
  iteration :: nat
  stalls :: nat

datatype outcome = Done string | Failed py_error

datatype progress = Continue agent_run | Stop outcome agent_run

text \<open>
  Modelled from the spec: the STALLED handling (section 4.4, steps 3 and 4, and section 7),
  a retry with a corrective system note while retries are left, and the fatal
  MalformedToolCall with the raw reply after that. The spec does not word the note.
\<close>

definition corrective_note :: message where
  "corrective_note =
     \<lparr>role = ''system'',
      content = ''Reply with a <tool_call> or a <response> tag.''\<rparr>"

definition stalled :: "agent_config \<Rightarrow> agent_run \<Rightarrow> string \<Rightarrow> progress" where
  "stalled cfg st reply =
     (if stalls st < stall_retries cfg
      then Continue (st\<lparr>messages := messages st @ [corrective_note], stalls := stalls st + 1\<rparr>)
      else Stop (Failed (MalformedToolCall reply)) st)"

text \<open>
  Modelled from the spec: the text of the observation (section 4.4, steps 5 to 7), which
  says that the tool is unknown, or describes the error of the invocation, or is the tool's
  result as text.
\<close>

fun describe :: "py_error \<Rightarrow> string" where
  "describe (ArgumentError p) = ''ArgumentError: missing argument '' @ p"
| "describe (ToolExecutionError m) = ''ToolExecutionError: '' @ m"
| "describe _ = ''Error''"

definition observation_text :: "externals \<Rightarrow> (string \<times> tool) list \<Rightarrow> tool_call \<Rightarrow> string" where
  "observation_text ext tools tc =
     (case map_of tools (name tc) of
        None \<Rightarrow> ''Unknown tool: '' @ name tc
      | Some t \<Rightarrow>
          (case run t (arguments tc) of
             Inl e \<Rightarrow> describe e
           | Inr v \<Rightarrow> py_str ext v))"

text \<open>
  Modelled from the spec: one iteration, steps 1 to 7 of section 4.4.
\<close>

definition agent_iteration ::
  "agent_config \<Rightarrow> externals \<Rightarrow> (string \<times> tool) list \<Rightarrow> agent_run \<Rightarrow> progress"
where
  "agent_iteration cfg ext tools st =
     (case create ext (messages st) of
        Inl e \<Rightarrow> Stop (Failed e) st
      | Inr reply \<Rightarrow>
          (let st1 = st\<lparr>messages := append_assistant (messages st) reply,
                         iteration := iteration st + 1\<rparr>
           in case matches (extract_tag_content reply ''response'') of
                answer # _ \<Rightarrow> Stop (Done answer) st1
              | [] \<Rightarrow>
                  (case matches (extract_tag_content reply ''tool_call'') of
                     [] \<Rightarrow> stalled cfg st1 reply
                   | m # _ \<Rightarrow>
                       (case json_loads ext m of
                          Inl e \<Rightarrow> stalled cfg st1 reply
                        | Inr tc \<Rightarrow>
                            Continue (st1\<lparr>messages := messages st1 @
                              [\<lparr>role = ''user'',
                                content = ''<observation>'' @ observation_text ext tools tc
                                            @ ''</observation>''\<rparr>]\<rparr>)))))"

lemma stalled_Continue:
  "stalled cfg st reply = Continue st' \<Longrightarrow> iteration st' = iteration st"
  by (auto simp: stalled_def split: if_splits)

lemma agent_iteration_Continue:
  "agent_iteration cfg ext tools st = Continue st' \<Longrightarrow> iteration st' = iteration st + 1"
  by (auto simp: agent_iteration_def Let_def dest!: stalled_Continue
           split: sum.splits list.splits)

text \<open>
  Modelled from the spec: the loop under its budget (section 4.4, step 8). A run that has
  used its iterations fails with IterationBudgetExceeded before any further request.
\<close>

function agent_loop ::
  "agent_config \<Rightarrow> externals \<Rightarrow> (string \<times> tool) list \<Rightarrow> agent_run \<Rightarrow> outcome \<times> agent_run"
where
  "agent_loop cfg ext tools st =
     (if max_iterations cfg \<le> iteration st then (Failed IterationBudgetExceeded, st)
      else (case agent_iteration cfg ext tools st of
              Stop r st' \<Rightarrow> (r, st')
            | Continue st' \<Rightarrow> agent_loop cfg ext tools st'))"
  by pat_completeness auto
termination
proof (relation "measure (\<lambda>(cfg, ext, tools, st). max_iterations cfg - iteration st)")
  show "wf (measure (\<lambda>(cfg, ext, tools, st). max_iterations cfg - iteration st))" by simp
next
  fix cfg :: agent_config and ext :: externals and tools :: "(string \<times> tool) list"
    and st st' :: agent_run
  assume "\<not> max_iterations cfg \<le> iteration st"
    and "agent_iteration cfg ext tools st = Continue st'"
  then show "((cfg, ext, tools, st'), (cfg, ext, tools, st))
      \<in> measure (\<lambda>(cfg, ext, tools, st). max_iterations cfg - iteration st)"
    by (auto dest: agent_iteration_Continue)
qed

declare agent_loop.simps [simp del]

text \<open>
  Modelled from the spec: \<^verbatim>\<open>ReactAgent.run\<close>, a fresh run on the system prompt and the
  user's message.
\<close>

definition agent_run_on ::
  "agent_config \<Rightarrow> externals \<Rightarrow> (string \<times> tool) list \<Rightarrow> string \<Rightarrow> string
     \<Rightarrow> outcome \<times> agent_run"
where
  "agent_run_on cfg ext tools system_prompt user_msg =
     agent_loop cfg ext tools
       \<lparr>messages = initial_history system_prompt user_msg, iteration = 0, stalls = 0\<rparr>"

text \<open>
  The requests a conversation records: each reply of the model is appended as one
  assistant message, and nothing else is appended with that role.
\<close>

definition requests :: "message list \<Rightarrow> nat" where
  "requests h = length (filter (\<lambda>m. role m = ''assistant'') h)"

section \<open>What the digits of an observation denote\<close>




section \<open>What the extractor is to compute\<close>

text \<open>
  The properties of section 4.1 in the spec's words, to compare the scan with: the first
  occurrence of a pattern, a text that holds a tag pair, and the sequence of the
  non-overlapping tag pairs of a text from left to right.
\<close>

definition first_occurrence :: "string \<Rightarrow> string \<Rightarrow> string \<Rightarrow> string \<Rightarrow> bool" where
  "first_occurrence pat s before after \<longleftrightarrow>
     s = before @ pat @ after \<and> (\<forall>b a. s = b @ pat @ a \<longrightarrow> length before \<le> length b)"

definition has_pair :: "string \<Rightarrow> string \<Rightarrow> bool" where
  "has_pair tg s \<longleftrightarrow>
     (\<exists>before inner after. s = before @ open_tag tg @ inner @ close_tag tg @ after)"

inductive tag_occurrences :: "string \<Rightarrow> string \<Rightarrow> string list \<Rightarrow> bool" where
  no_pair: "\<not> has_pair tg s \<Longrightarrow> tag_occurrences tg s []"
| pair: "first_occurrence (open_tag tg) s before rest \<Longrightarrow>
         first_occurrence (close_tag tg) rest inner rest' \<Longrightarrow>
         tag_occurrences tg rest' ms \<Longrightarrow> tag_occurrences tg s (inner # ms)"

section \<open>Scripted collaborators for the examples\<close>

text \<open>
  Stand-ins for the model client and for \<^verbatim>\<open>json.loads\<close>, to run the cells on concrete
  conversations: the client answers the \<open>k\<close>-th request (counted by the assistant messages
  already in the conversation) with the \<open>k\<close>-th reply of a list; the parser reads the JSON
  texts of a table, each given with the tool call it denotes, and rejects every other text;
  a float is printed as a fixed word.
\<close>

definition scripted :: "string list \<Rightarrow> message list \<Rightarrow> py_error + string" where
  "scripted replies h =
     (let k = length (filter (\<lambda>m. role m = ''assistant'') h)
      in if k < length replies then Inr (replies ! k)
         else Inl (ModelClientError ''no reply''))"

definition table_loads :: "(string \<times> tool_call) list \<Rightarrow> string \<Rightarrow> py_error + tool_call" where
  "table_loads tab s = (case map_of tab s of None \<Rightarrow> Inl JSONDecodeError | Some tc \<Rightarrow> Inr tc)"

definition test_externals :: "string list \<Rightarrow> (string \<times> tool_call) list \<Rightarrow> externals" where
  "test_externals replies tab =
     \<lparr>create = scripted replies, json_loads = table_loads tab, float_str = (\<lambda>r. ''float'')\<rparr>"

text \<open>
  The example of the walkthrough (the sum of 1234 and 5678, times 5, then the logarithm):
  the four replies of a model that follows the system prompt, and the tool calls their JSON
  texts denote.
\<close>

definition sum_call :: tool_call where
  "sum_call =
     \<lparr>name = ''sum_two_elements'', arguments = [(''a'', 1234), (''b'', 5678)], call_id = 0\<rparr>"

definition multiply_call :: tool_call where
  "multiply_call =
     \<lparr>name = ''multiply_two_elements'', arguments = [(''a'', 6912), (''b'', 5)], call_id = 1\<rparr>"

definition log_call :: tool_call where
  "log_call = \<lparr>name = ''compute_log'', arguments = [(''x'', 34560)], call_id = 2\<rparr>"

definition scenario_a_replies :: "string list" where
  \<open>scenario_a_replies =
     [''<thought>First the sum</thought><tool_call>{"name": "sum_two_elements", "arguments": {"a": 1234, "b": 5678}, "id": 0}</tool_call>'',
      ''<tool_call>{"name": "multiply_two_elements", "arguments": {"a": 6912, "b": 5}, "id": 1}</tool_call>'',
      ''<tool_call>{"name": "compute_log", "arguments": {"x": 34560}, "id": 2}</tool_call>'',
      ''<response>The logarithm is about 10.45</response>'']\<close>

definition scenario_a_table :: "(string \<times> tool_call) list" where
  \<open>scenario_a_table =
     [(''{"name": "sum_two_elements", "arguments": {"a": 1234, "b": 5678}, "id": 0}'', sum_call),
      (''{"name": "multiply_two_elements", "arguments": {"a": 6912, "b": 5}, "id": 1}'',
       multiply_call),
      (''{"name": "compute_log", "arguments": {"x": 34560}, "id": 2}'', log_call)]\<close>

definition scenario_a :: externals where
  "scenario_a = test_externals scenario_a_replies scenario_a_table"

lemmas cell_defs =
  react_step_def checked_step_def act_def parse_tool_call_def first_match_def
  extract_tag_content_def open_tag_def close_tag_def call_tool_def
  append_assistant_def append_observation_def

lemmas double_defs = test_externals_def scripted_def table_loads_def initial_history_def

lemmas scenario_defs =
  scenario_a_def scenario_a_replies_def scenario_a_table_def sum_call_def multiply_call_def
  log_call_def

lemmas tool_defs =
  available_tools_def sum_two_elements_tool_def multiply_two_elements_tool_def
  compute_log_tool_def tool_of_def sum_two_elements_def multiply_two_elements_def

section \<open>The extractor computes the tag pairs\<close>

lemma split_at_first_None: "split_at_first pat s = None \<longleftrightarrow> \<not> sublist pat s"
proof (induction s)
  case Nil
  show ?case by simp
next
  case (Cons c cs)
  then show ?case
    by (auto simp: sublist_Cons_right split: option.splits)
qed

lemma split_at_first_minimal:
  "split_at_first pat s = Some (before, after) \<Longrightarrow> s = b @ pat @ a \<Longrightarrow> length before \<le> length b"
proof (induction s arbitrary: before b)
  case Nil
  then show ?case by (simp split: if_splits)
next
  case (Cons c cs)
  show ?case
  proof (cases "prefix pat (c # cs)")
    case True
    with Cons.prems(1) show ?thesis by simp
  next
    case False
    with Cons.prems(1) obtain b0 where b0: "split_at_first pat cs = Some (b0, after)" "before = c # b0"
      by (auto split: option.splits)
    from False Cons.prems(2) have "b \<noteq> []" by auto
    with Cons.prems(2) obtain b' where b': "b = c # b'" "cs = b' @ pat @ a"
      by (cases b) auto
    from Cons.IH[OF b0(1) b'(2)] b0(2) b'(1) show ?thesis by simp
  qed
qed

lemma split_at_first_first:
  "split_at_first pat s = Some (before, after) \<longleftrightarrow> first_occurrence pat s before after"
proof
  assume "split_at_first pat s = Some (before, after)"
  then show "first_occurrence pat s before after"
    unfolding first_occurrence_def
    using split_at_first_decomp split_at_first_minimal by blast
next
  assume f: "first_occurrence pat s before after"
  then have s: "s = before @ pat @ after" by (simp add: first_occurrence_def)
  then have "sublist pat s" by (auto simp: sublist_def)
  then obtain b a where ba: "split_at_first pat s = Some (b, a)"
    using split_at_first_None[of pat s] by (cases "split_at_first pat s") auto
  then have s': "s = b @ pat @ a" by (rule split_at_first_decomp)
  from f s' have "length before \<le> length b" unfolding first_occurrence_def by blast
  moreover from split_at_first_minimal[OF ba s] have "length b \<le> length before" .
  ultimately have "length b = length before" by simp
  with s s' have "b = before" "a = after" by auto
  with ba show "split_at_first pat s = Some (before, after)" by simp
qed

lemma tag_matches_Nil_iff: "tag_matches tg s = [] \<longleftrightarrow> \<not> has_pair tg s"
proof
  assume e: "tag_matches tg s = []"
  show "\<not> has_pair tg s"
  proof
    assume "has_pair tg s"
    then obtain b' i' a' where s: "s = b' @ open_tag tg @ i' @ close_tag tg @ a'"
      by (auto simp: has_pair_def)
    then have "sublist (open_tag tg) s" by (auto simp: sublist_def)
    then obtain b rest where br: "split_at_first (open_tag tg) s = Some (b, rest)"
      using split_at_first_None[of "open_tag tg" s] by (cases "split_at_first (open_tag tg) s") auto
    from split_at_first_minimal[OF br s] have le: "length b \<le> length b'" .
    from split_at_first_decomp[OF br] have s2: "s = b @ open_tag tg @ rest" .
    from s have "i' @ close_tag tg @ a' = drop (length b' + length (open_tag tg)) s" by simp
    moreover from s2 have "rest = drop (length b + length (open_tag tg)) s" by simp
    ultimately have "i' @ close_tag tg @ a' = drop (length b' - length b) rest"
      using le by simp
    then have "suffix (i' @ close_tag tg @ a') rest"
      by (metis suffix_drop)
    then have "sublist (close_tag tg) rest"
      by (metis sublist_appendI sublist_order.order.trans suffix_imp_sublist)
    then obtain inner rest' where "split_at_first (close_tag tg) rest = Some (inner, rest')"
      using split_at_first_None[of "close_tag tg" rest]
      by (cases "split_at_first (close_tag tg) rest") auto
    with br have "tag_matches tg s \<noteq> []"
      by (subst tag_matches.simps) simp
    with e show False by simp
  qed
next
  assume n: "\<not> has_pair tg s"
  show "tag_matches tg s = []"
  proof (rule ccontr)
    assume "tag_matches tg s \<noteq> []"
    then obtain b rest inner rest' where
      "split_at_first (open_tag tg) s = Some (b, rest)"
      "split_at_first (close_tag tg) rest = Some (inner, rest')"
      by (subst (asm) tag_matches.simps) (auto split: option.splits)
    then have "s = b @ open_tag tg @ inner @ close_tag tg @ rest'"
      using split_at_first_decomp by blast
    with n show False by (auto simp: has_pair_def)
  qed
qed

lemma tag_matches_occurrences: "tag_occurrences tg s (tag_matches tg s)"
proof (induction tg s rule: tag_matches.induct)
  case (1 tg s)
  show ?case
  proof (cases "tag_matches tg s")
    case Nil
    then show ?thesis by (metis tag_matches_Nil_iff no_pair)
  next
    case (Cons m ms)
    then obtain b rest inner rest' where
      o: "split_at_first (open_tag tg) s = Some (b, rest)" and
      c: "split_at_first (close_tag tg) rest = Some (inner, rest')"
      by (subst (asm) tag_matches.simps) (auto split: option.splits)
    then have eq: "tag_matches tg s = inner # tag_matches tg rest'"
      by (subst tag_matches.simps) simp
    from "1.IH"[OF o refl c refl] have "tag_occurrences tg rest' (tag_matches tg rest')" .
    with o c show ?thesis unfolding eq
      by (auto intro: pair simp: split_at_first_first)
  qed
qed

lemma tag_occurrences_unique: "tag_occurrences tg s ms \<Longrightarrow> ms = tag_matches tg s"
proof (induction rule: tag_occurrences.induct)
  case (no_pair tg s)
  then show ?case using tag_matches_Nil_iff[of tg s] by simp
next
  case (pair tg s before rest inner rest' ms)
  then show ?case
    by (subst tag_matches.simps) (simp add: split_at_first_first[symmetric])
qed

lemma close_tag_no_overlap:
  assumes "CHR ''>'' \<notin> set tg" "\<not> sublist (close_tag tg) x"
  shows "first_occurrence (close_tag tg) (x @ close_tag tg) x []"
  unfolding first_occurrence_def
proof (intro conjI allI impI)
  show "x @ close_tag tg = x @ close_tag tg @ []" by simp
next
  fix b a
  assume e: "x @ close_tag tg = b @ close_tag tg @ a"
  let ?c = "close_tag tg"
  have c: "?c = (''</'' @ tg) @ [CHR ''>'']" by (simp add: close_tag_def)
  show "length x \<le> length b"
  proof (rule ccontr)
    assume "\<not> length x \<le> length b"
    then have lt: "length b < length x" by simp
    from e have "x @ ?c = (b @ ?c) @ a" by simp
    then obtain us where "(x = (b @ ?c) @ us \<and> us @ ?c = a) \<or> (x @ us = b @ ?c \<and> ?c = us @ a)"
      unfolding append_eq_append_conv2 by blast
    then show False
    proof
      assume "x = (b @ ?c) @ us \<and> us @ ?c = a"
      then have "sublist ?c x" by (auto simp: sublist_def)
      with assms(2) show False by simp
    next
      assume h: "x @ us = b @ ?c \<and> ?c = us @ a"
      show False
      proof (cases "us = []")
        case True
        with h have "x = b @ ?c" by simp
        then have "sublist ?c x" by simp
        with assms(2) show False by simp
      next
        case False
        from h lt have "length us < length ?c"
          by (metis add_less_cancel_right length_append less_imp_add_positive add.commute
                not_add_less1 not_less_iff_gr_or_eq)
        with h have "prefix us ?c" "us \<noteq> ?c" by (auto simp: prefix_def)
        then have "prefix us (''</'' @ tg)" unfolding c prefix_snoc by simp
        then have "set us \<subseteq> set (''</'' @ tg)" by (rule set_mono_prefix)
        with False have "last us \<in> set (''</'' @ tg)" using last_in_set by blast
        with assms(1) have "last us \<noteq> CHR ''>''" by auto
        moreover from h False have "last us = last (b @ ?c)" by (metis last_appendR)
        then have "last us = CHR ''>''" by (simp add: close_tag_def)
        ultimately show False by simp
      qed
    qed
  qed
qed

lemma split_at_first_prefix: "split_at_first pat (pat @ r) = Some ([], r)"
proof (cases "pat @ r")
  case Nil
  then show ?thesis by simp
next
  case (Cons c cs)
  have "prefix pat (pat @ r)" by simp
  with Cons have "split_at_first pat (pat @ r) = Some ([], drop (length pat) (pat @ r))"
    by simp
  then show ?thesis by simp
qed

lemma tag_matches_single:
  assumes "CHR ''>'' \<notin> set tg" "\<not> sublist (close_tag tg) x"
  shows "tag_matches tg (open_tag tg @ x @ close_tag tg) = [x]"
proof -
  have "split_at_first (close_tag tg) (x @ close_tag tg) = Some (x, [])"
    using close_tag_no_overlap[OF assms] by (simp add: split_at_first_first)
  moreover have "tag_matches tg [] = []"
    by (subst tag_matches.simps) (simp add: open_tag_def)
  ultimately show ?thesis
    by (subst tag_matches.simps) (simp add: split_at_first_prefix)
qed

text \<open>
  C5. A text that holds no pair of the tag -- no opening tag followed later by a closing
  tag -- gives an empty sequence of matches, and only such a text does. In particular a
  text without the opening tag, and a text with the opening tag and no closing tag, give no
  match. The extraction is a total function: it has no failing case.
\<close>

theorem extract_without_tag_empty:
  "(matches (extract_tag_content s tg) = [] \<longleftrightarrow> \<not> has_pair tg s)
   \<and> (\<not> sublist (open_tag tg) s \<longrightarrow> matches (extract_tag_content s tg) = [])
   \<and> (\<not> sublist (close_tag tg) s \<longrightarrow> matches (extract_tag_content s tg) = [])
   \<and> tag (extract_tag_content s tg) = tg"
proof -
  have a: "matches (extract_tag_content s tg) = [] \<longleftrightarrow> \<not> has_pair tg s"
    by (simp add: extract_tag_content_def tag_matches_Nil_iff)
  have "has_pair tg s \<Longrightarrow> sublist (open_tag tg) s \<and> sublist (close_tag tg) s"
    unfolding has_pair_def sublist_def by (metis append.assoc)
  with a show ?thesis by (auto simp: extract_tag_content_def)
qed

theorem extract_without_tag_empty_witness:
  "\<not> sublist (close_tag ''tool_call'') ''<thought>sum</thought><tool_call>{''
   \<and> matches (extract_tag_content ''<thought>sum</thought><tool_call>{'' ''tool_call'') = []
   \<and> \<not> has_pair ''tool_call'' ''<thought>sum</thought><tool_call>{''"
proof -
  have h: "\<not> sublist (close_tag ''tool_call'') ''<thought>sum</thought><tool_call>{''"
    by (simp add: close_tag_def sublist_Cons_right)
  with extract_without_tag_empty[of "''<thought>sum</thought><tool_call>{''" "''tool_call''"]
  show ?thesis by blast
qed

text \<open>
  C6. The matches are the inner contents of the non-overlapping pairs of the tag, from left
  to right: the first opening tag, the first closing tag after it, and so on behind that
  closing tag; no other sequence is. For a text \<^verbatim>\<open><tag>X</tag>\<close> whose tag name holds no
  \<^verbatim>\<open>>\<close> and whose \<open>X\<close> does not hold the closing tag, the matches are exactly \<open>[X]\<close>,
  whatever else \<open>X\<close> holds (other tags, newlines).
\<close>

theorem extract_all_pairs_in_order:
  "tag_occurrences tg s (matches (extract_tag_content s tg))
   \<and> (\<forall>ms. tag_occurrences tg s ms \<longrightarrow> ms = matches (extract_tag_content s tg))
   \<and> (CHR ''>'' \<notin> set tg \<and> \<not> sublist (close_tag tg) x \<longrightarrow>
        matches (extract_tag_content (open_tag tg @ x @ close_tag tg) tg) = [x])"
  by (simp add: extract_tag_content_def tag_matches_occurrences tag_occurrences_unique
        tag_matches_single)

theorem extract_all_pairs_in_order_witness:
  "CHR ''>'' \<notin> set ''response''
   \<and> \<not> sublist (close_tag ''response'') (''The <b>log</b> is'' @ [CHR 0x0A] @ ''10.45'')
   \<and> matches (extract_tag_content
        (open_tag ''response'' @ (''The <b>log</b> is'' @ [CHR 0x0A] @ ''10.45'')
           @ close_tag ''response'') ''response'')
      = [''The <b>log</b> is'' @ [CHR 0x0A] @ ''10.45'']
   \<and> tag_occurrences ''t'' ''a<t>x</t>b<t>y<u>z</u></t>c<t>open''
        (matches (extract_tag_content ''a<t>x</t>b<t>y<u>z</u></t>c<t>open'' ''t''))
   \<and> matches (extract_tag_content ''a<t>x</t>b<t>y<u>z</u></t>c<t>open'' ''t'')
      = [''x'', ''y<u>z</u>'']"
proof -
  have h1: "CHR ''>'' \<notin> set ''response''" by simp
  have h2: "\<not> sublist (close_tag ''response'') (''The <b>log</b> is'' @ [CHR 0x0A] @ ''10.45'')"
    by (simp add: close_tag_def sublist_Cons_right)
  have e: "matches (extract_tag_content ''a<t>x</t>b<t>y<u>z</u></t>c<t>open'' ''t'')
      = [''x'', ''y<u>z</u>'']"
    by (simp add: extract_tag_content_def tag_matches.simps open_tag_def close_tag_def)
  from h1 h2 e
    extract_all_pairs_in_order[of "''response''"
      "''a''" "''The <b>log</b> is'' @ [CHR 0x0A] @ ''10.45''"]
    extract_all_pairs_in_order[of "''t''" "''a<t>x</t>b<t>y<u>z</u></t>c<t>open''" "[]"]
  show ?thesis by simp
qed

section \<open>The iteration of the notebook\<close>

lemma format_value_exceeds:
  "format_value ext v = (if exceeds_str_digits v then Inl ValueError else Inr (py_str ext v))"
  by (cases v) (simp_all add: str_int_def)

lemma append_observation_exceeds:
  "append_observation ext h v =
     (if exceeds_str_digits v then Inl ValueError
      else Inr (h @ [\<lparr>role = ''user'',
                      content = ''<observation>'' @ py_str ext v @ ''</observation>''\<rparr>]))"
  by (simp add: append_observation_def format_value_exceeds)

lemma str_int_6912: "str_int 6912 = Inr ''6912''"
  by (simp add: str_int_def int_max_str_digits_def decimal_int_def decimal_nat.simps)

lemma react_step_eval:
  "react_step ext tools h =
     (case create ext h of
        Inl e \<Rightarrow> (h, Inl e)
      | Inr output \<Rightarrow>
          (case parse_tool_call ext output of
             Inl e \<Rightarrow> (append_assistant h output, Inl e)
           | Inr tc \<Rightarrow>
               (case call_tool tools tc of
                  Inl e \<Rightarrow> (append_assistant h output, Inl e)
                | Inr v \<Rightarrow>
                    if exceeds_str_digits v then (append_assistant h output, Inl ValueError)
                    else (append_assistant h output
                            @ [\<lparr>role = ''user'',
                                content = ''<observation>'' @ py_str ext v
                                            @ ''</observation>''\<rparr>],
                          Inr v))))"
  by (simp add: react_step_def act_def append_observation_exceeds split: sum.splits)

lemma checked_step_eval:
  "checked_step ext tools expected h =
     (case create ext h of
        Inl e \<Rightarrow> (h, Inl e)
      | Inr output \<Rightarrow>
          (case parse_tool_call ext output of
             Inl e \<Rightarrow> (append_assistant h output, Inl e)
           | Inr tc \<Rightarrow>
               (case call_tool tools tc of
                  Inl e \<Rightarrow> (append_assistant h output, Inl e)
                | Inr v \<Rightarrow>
                    if py_eq v expected
                    then if exceeds_str_digits v
                         then (append_assistant h output, Inl ValueError)
                         else (append_assistant h output
                                 @ [\<lparr>role = ''user'',
                                     content = ''<observation>'' @ py_str ext v
                                                 @ ''</observation>''\<rparr>],
                               Inr v)
                    else (append_assistant h output, Inl AssertionError))))"
  by (simp add: checked_step_def act_def append_observation_exceeds split: sum.splits)

lemma checked_step_prefix: "prefix h (fst (checked_step ext tools expected h))"
  by (simp add: checked_step_eval append_assistant_def split: sum.splits)

lemma parse_tool_call_no_pair:
  "\<not> has_pair ''tool_call'' output \<Longrightarrow> parse_tool_call ext output = Inl IndexError"
  by (simp add: parse_tool_call_def first_match_def extract_tag_content_def
        tag_matches_Nil_iff[symmetric])

lemma parse_tool_call_first:
  "matches (extract_tag_content output ''tool_call'') = m # ms \<Longrightarrow>
   parse_tool_call ext output = json_loads ext m"
  by (simp add: parse_tool_call_def first_match_def)

text \<open>
  C1, as the code has it. A parsed tool call whose name is not a key of the registry makes
  the lookup \<^verbatim>\<open>available_tools[tool_call["name"]]\<close> raise KeyError. Nothing catches it:
  the iteration ends with the exception after the assistant's reply was appended, no
  observation is appended, and the walkthrough stops there.
\<close>

theorem unknown_tool_raises_KeyError:
  assumes "create ext h = Inr output"
    and "parse_tool_call ext output = Inr tc"
    and "map_of tools (name tc) = None"
  shows "call_tool tools tc = Inl (KeyError (name tc))
    \<and> react_step ext tools h = (append_assistant h output, Inl (KeyError (name tc)))
    \<and> checked_step ext tools expected h = (append_assistant h output, Inl (KeyError (name tc)))
    \<and> (tools = available_tools \<and> h = initial_history p q \<longrightarrow>
         walkthrough ext p q = (append_assistant h output, Inl (KeyError (name tc))))"
proof -
  from assms have c: "checked_step ext tools expected h
      = (append_assistant h output, Inl (KeyError (name tc)))" for expected
    by (simp add: checked_step_eval call_tool_def)
  then have "tools = available_tools \<and> h = initial_history p q \<longrightarrow>
      walkthrough ext p q = (append_assistant h output, Inl (KeyError (name tc)))"
    by (auto simp: walkthrough_def)
  with assms c show ?thesis
    by (simp add: react_step_eval call_tool_def)
qed

theorem unknown_tool_raises_KeyError_witness:
  \<open>(let reply = ''<tool_call>{"name": "get_current_weather", "arguments": {}, "id": 0}</tool_call>'';
        tc = \<lparr>name = ''get_current_weather'', arguments = [], call_id = 0\<rparr>;
        ext = test_externals [reply]
                [(''{"name": "get_current_weather", "arguments": {}, "id": 0}'', tc)]
    in create ext [] = Inr reply
       \<and> parse_tool_call ext reply = Inr tc
       \<and> map_of available_tools (name tc) = None
       \<and> react_step ext available_tools []
           = ([\<lparr>role = ''assistant'', content = reply\<rparr>],
              Inl (KeyError ''get_current_weather'')))\<close>
proof -
  let ?reply = \<open>''<tool_call>{"name": "get_current_weather", "arguments": {}, "id": 0}</tool_call>''\<close>
  let ?tc = "\<lparr>name = ''get_current_weather'', arguments = [], call_id = 0\<rparr>"
  let ?ext = \<open>test_externals [?reply]
      [(''{"name": "get_current_weather", "arguments": {}, "id": 0}'', ?tc)]\<close>
  have c: "create ?ext [] = Inr ?reply"
    by (simp add: double_defs)
  have p: "parse_tool_call ?ext ?reply = Inr ?tc"
    by (simp add: cell_defs double_defs tag_matches.simps)
  have m: "map_of available_tools (name ?tc) = None"
    by (simp add: available_tools_def)
  from unknown_tool_raises_KeyError[OF c p m] c p m show ?thesis
    by (simp add: append_assistant_def)
qed

text \<open>
  C1 as the spec words it fails: on a reply that names the tool
  \<^verbatim>\<open>get_current_weather\<close>, which is not registered, the iteration ends with KeyError and
  the conversation holds the assistant's reply and no observation; the walkthrough ends
  with the same exception and requests nothing further.
\<close>

theorem unknown_tool_counterexample:
  \<open>(let reply = ''<tool_call>{"name": "get_current_weather", "arguments": {}, "id": 0}</tool_call>'';
        tc = \<lparr>name = ''get_current_weather'', arguments = [], call_id = 0\<rparr>;
        ext = test_externals [reply, ''<response>Sunny</response>'']
                [(''{"name": "get_current_weather", "arguments": {}, "id": 0}'', tc)]
    in react_step ext available_tools (initial_history ''p'' ''q'')
         = (initial_history ''p'' ''q'' @ [\<lparr>role = ''assistant'', content = reply\<rparr>],
            Inl (KeyError ''get_current_weather''))
       \<and> walkthrough ext ''p'' ''q''
         = (initial_history ''p'' ''q'' @ [\<lparr>role = ''assistant'', content = reply\<rparr>],
            Inl (KeyError ''get_current_weather'')))\<close>
  by (simp add: walkthrough_def cell_defs double_defs available_tools_def tag_matches.simps)

text \<open>
  C2, as the code has it. The walkthrough never looks for a \<^verbatim>\<open>response\<close> tag. When the
  reply holds no \<^verbatim>\<open>tool_call\<close> pair, \<^verbatim>\<open>tool_call.content[0]\<close> raises IndexError; when the
  first match does not parse, the exception of \<^verbatim>\<open>json.loads\<close> goes up. Either way the
  iteration ends with the exception after the assistant's reply was appended: there is no
  retry, no corrective note and no report of the raw reply.
\<close>

theorem missing_tool_call_raises:
  "(create ext h = Inr output \<and> \<not> has_pair ''tool_call'' output \<longrightarrow>
      react_step ext tools h = (append_assistant h output, Inl IndexError)
      \<and> checked_step ext tools expected h = (append_assistant h output, Inl IndexError))
   \<and> (create ext h = Inr output
        \<and> matches (extract_tag_content output ''tool_call'') = m # ms
        \<and> json_loads ext m = Inl e \<longrightarrow>
      react_step ext tools h = (append_assistant h output, Inl e)
      \<and> checked_step ext tools expected h = (append_assistant h output, Inl e))"
  by (auto simp: react_step_eval checked_step_eval parse_tool_call_no_pair parse_tool_call_first)

theorem missing_tool_call_raises_witness:
  \<open>(let reply = ''<thought>I add the numbers</thought><tool_call>{"name": "sum_two_el'';
        ext = test_externals [reply] []
    in create ext [] = Inr reply
       \<and> \<not> has_pair ''tool_call'' reply
       \<and> react_step ext available_tools []
           = ([\<lparr>role = ''assistant'', content = reply\<rparr>], Inl IndexError))
   \<and> (let reply = ''<tool_call>{"name": sum_two_elements}</tool_call>'';
          ext = test_externals [reply] []
      in create ext [] = Inr reply
         \<and> matches (extract_tag_content reply ''tool_call'') = [''{"name": sum_two_elements}'']
         \<and> json_loads ext ''{"name": sum_two_elements}'' = Inl JSONDecodeError
         \<and> react_step ext available_tools []
             = ([\<lparr>role = ''assistant'', content = reply\<rparr>], Inl JSONDecodeError))\<close>
proof -
  let ?r = \<open>''<thought>I add the numbers</thought><tool_call>{"name": "sum_two_el''\<close>
  let ?ext = "test_externals [?r] []"
  have c: "create ?ext [] = Inr ?r"
    by (simp add: double_defs)
  have "tag_matches ''tool_call'' ?r = []"
    by (simp add: tag_matches.simps open_tag_def close_tag_def)
  then have n: "\<not> has_pair ''tool_call'' ?r"
    by (simp add: tag_matches_Nil_iff)
  let ?r2 = \<open>''<tool_call>{"name": sum_two_elements}</tool_call>''\<close>
  let ?m = \<open>''{"name": sum_two_elements}''\<close>
  let ?ext2 = "test_externals [?r2] []"
  have c2: "create ?ext2 [] = Inr ?r2"
    by (simp add: double_defs)
  have e2: "matches (extract_tag_content ?r2 ''tool_call'') = [?m]"
    by (simp add: extract_tag_content_def tag_matches.simps open_tag_def close_tag_def)
  have l2: "json_loads ?ext2 ?m = Inl JSONDecodeError"
    by (simp add: double_defs)
  from missing_tool_call_raises[where ext = ?ext and h = "[]" and ?output = ?r
      and tools = available_tools]
    missing_tool_call_raises[where ext = ?ext2 and h = "[]" and ?output = ?r2
      and tools = available_tools and m = ?m and ms = "[]" and e = JSONDecodeError]
    c n c2 e2 l2
  show ?thesis
    by (simp add: append_assistant_def)
qed

text \<open>
  C2 as the spec words it fails: a reply with neither tag ends the iteration with
  IndexError, the fault of indexing an empty sequence of matches, and a tool call that is
  not JSON ends it with the parser's exception.
\<close>

theorem missing_tool_call_counterexample:
  \<open>react_step (test_externals [''I cannot help with that.''] []) available_tools
       (initial_history ''p'' ''q'')
     = (initial_history ''p'' ''q''
          @ [\<lparr>role = ''assistant'', content = ''I cannot help with that.''\<rparr>],
        Inl IndexError)
   \<and> react_step (test_externals [''<tool_call>{"name": sum_two_elements}</tool_call>''] [])
       available_tools (initial_history ''p'' ''q'')
     = (initial_history ''p'' ''q''
          @ [\<lparr>role = ''assistant'',
              content = ''<tool_call>{"name": sum_two_elements}</tool_call>''\<rparr>],
        Inl JSONDecodeError)\<close>
  by (simp add: cell_defs double_defs tag_matches.simps)

section \<open>The tools and the observation\<close>

lemma run_compute_log_tool: "run compute_log_tool [(''x'', x)] = Inr (compute_log x)"
  by (simp add: compute_log_tool_def tool_of_def)

lemma call_compute_log:
  "call_tool available_tools \<lparr>name = ''compute_log'', arguments = [(''x'', x)], call_id = i\<rparr>
     = Inr (compute_log x)"
  by (simp add: call_tool_def available_tools_def run_compute_log_tool)

lemma call_sum_two_elements:
  "call_tool available_tools
     \<lparr>name = ''sum_two_elements'', arguments = [(''a'', a), (''b'', b)], call_id = i\<rparr>
     = Inr (PyInt (sum_two_elements a b))"
  by (simp add: call_tool_def available_tools_def sum_two_elements_tool_def tool_of_def)

lemma call_multiply_two_elements:
  "call_tool available_tools
     \<lparr>name = ''multiply_two_elements'', arguments = [(''a'', a), (''b'', b)], call_id = i\<rparr>
     = Inr (PyInt (multiply_two_elements a b))"
  by (simp add: call_tool_def available_tools_def multiply_two_elements_tool_def tool_of_def)



text \<open>
  C8. The conversation only grows at its end. An iteration leaves it as it was (the client
  failed), or appends the assistant's reply, or appends the assistant's reply and then the
  observation; what was there before stays in place, unchanged. The same holds for the
  iteration with its assert and for the whole walkthrough from its starting conversation.
\<close>

theorem chat_history_append_only:
  "prefix h (fst (react_step ext tools h))
   \<and> (fst (react_step ext tools h) = h
      \<or> (\<exists>output. fst (react_step ext tools h)
            = h @ [\<lparr>role = ''assistant'', content = output\<rparr>])
      \<or> (\<exists>output v. fst (react_step ext tools h)
            = h @ [\<lparr>role = ''assistant'', content = output\<rparr>,
                   \<lparr>role = ''user'',
                    content = ''<observation>'' @ py_str ext v @ ''</observation>''\<rparr>]))
   \<and> prefix h (fst (checked_step ext tools expected h))
   \<and> prefix (initial_history p q) (fst (walkthrough ext p q))"
proof -
  have a: "fst (react_step ext tools h) = h
      \<or> (\<exists>output. fst (react_step ext tools h)
            = h @ [\<lparr>role = ''assistant'', content = output\<rparr>])
      \<or> (\<exists>output v. fst (react_step ext tools h)
            = h @ [\<lparr>role = ''assistant'', content = output\<rparr>,
                   \<lparr>role = ''user'',
                    content = ''<observation>'' @ py_str ext v @ ''</observation>''\<rparr>])"
    by (auto simp: react_step_eval append_assistant_def split: sum.splits)
  then have b: "prefix h (fst (react_step ext tools h))"
    by (auto simp: prefix_def)
  have w: "prefix (initial_history p q) (fst (walkthrough ext p q))"
  proof -
    let ?h0 = "initial_history p q"
    obtain h1 r1 where s1: "checked_step ext available_tools (PyInt (1234 + 5678)) ?h0 = (h1, r1)"
      by (cases "checked_step ext available_tools (PyInt (1234 + 5678)) ?h0")
    obtain h2 r2 where
      s2: "checked_step ext available_tools (PyInt ((1234 + 5678) * 5)) h1 = (h2, r2)"
      by (cases "checked_step ext available_tools (PyInt ((1234 + 5678) * 5)) h1")
    obtain h3 r3 where
      s3: "checked_step ext available_tools
             (PyFloat (ln (real_of_int ((1234 + 5678) * 5)))) h2 = (h3, r3)"
      by (cases "checked_step ext available_tools
             (PyFloat (ln (real_of_int ((1234 + 5678) * 5)))) h2")
    have p1: "prefix ?h0 h1" using checked_step_prefix[of ?h0 ext] s1
      by (metis fst_conv)
    have p2: "prefix h1 h2" using checked_step_prefix[of h1 ext] s2
      by (metis fst_conv)
    have p3: "prefix h2 h3" using checked_step_prefix[of h2 ext] s3
      by (metis fst_conv)
    from p1 p2 p3 have "prefix ?h0 h2" "prefix ?h0 h3"
      by (auto intro: prefix_order.trans)
    with p1 s1 s2 s3 show ?thesis
      by (simp add: walkthrough_def split: sum.splits)
  qed
  from a b w checked_step_prefix show ?thesis by blast
qed

theorem chat_history_append_only_witness:
  "prefix (initial_history ''p'' ''q'')
     (fst (react_step scenario_a available_tools (initial_history ''p'' ''q'')))
   \<and> fst (react_step scenario_a available_tools (initial_history ''p'' ''q''))
      = initial_history ''p'' ''q''
          @ [\<lparr>role = ''assistant'', content = scenario_a_replies ! 0\<rparr>,
             \<lparr>role = ''user'', content = ''<observation>6912</observation>''\<rparr>]
   \<and> prefix (initial_history ''p'' ''q'') (fst (walkthrough scenario_a ''p'' ''q''))"
proof -
  have "fst (react_step scenario_a available_tools (initial_history ''p'' ''q''))
      = initial_history ''p'' ''q''
          @ [\<lparr>role = ''assistant'', content = scenario_a_replies ! 0\<rparr>,
             \<lparr>role = ''user'', content = ''<observation>6912</observation>''\<rparr>]"
    by (simp add: cell_defs double_defs scenario_defs tool_defs tag_matches.simps str_int_6912)
  with chat_history_append_only[where h = "initial_history ''p'' ''q''" and ext = scenario_a
      and tools = available_tools and p = "''p''" and q = "''q''"]
  show ?thesis by blast
qed

text \<open>
  C9. The \<^verbatim>\<open>id\<close> of a tool call decides nothing. Two tool calls that differ in the
  \<^verbatim>\<open>id\<close> alone find the same tool and get the same result; and two runs of an iteration
  whose parsed tool calls agree in name and arguments (and fail to parse alike) end with the
  same conversation, observation included, and the same result.
\<close>

theorem call_id_irrelevant:
  "map_of tools (name (tc\<lparr>call_id := i\<rparr>)) = map_of tools (name (tc\<lparr>call_id := j\<rparr>))
   \<and> call_tool tools (tc\<lparr>call_id := i\<rparr>) = call_tool tools (tc\<lparr>call_id := j\<rparr>)
   \<and> (create ext1 = create ext2 \<and> float_str ext1 = float_str ext2
       \<and> (\<forall>s. rel_sum (=) (\<lambda>t1 t2. name t1 = name t2 \<and> arguments t1 = arguments t2)
                (json_loads ext1 s) (json_loads ext2 s)) \<longrightarrow>
       react_step ext1 tools h = react_step ext2 tools h)"
proof -
  have "react_step ext1 tools h = react_step ext2 tools h"
    if c: "create ext1 = create ext2" and f: "float_str ext1 = float_str ext2"
      and l: "\<forall>s. rel_sum (=) (\<lambda>t1 t2. name t1 = name t2 \<and> arguments t1 = arguments t2)
                (json_loads ext1 s) (json_loads ext2 s)"
  proof -
    have py: "py_str ext1 v = py_str ext2 v" for v
      using f by (cases v) simp_all
    have p: "rel_sum (=) (\<lambda>t1 t2. name t1 = name t2 \<and> arguments t1 = arguments t2)
        (parse_tool_call ext1 out) (parse_tool_call ext2 out)" for out
      using l by (simp add: parse_tool_call_def split: sum.splits)
    show ?thesis
    proof (cases "create ext2 h")
      case (Inl e)
      with c show ?thesis by (simp add: react_step_eval)
    next
      case (Inr out)
      with p[of out] c py show ?thesis
        by (cases "parse_tool_call ext1 out"; cases "parse_tool_call ext2 out")
          (auto simp: react_step_eval call_tool_def split: sum.splits option.splits)
    qed
  qed
  then show ?thesis by (auto simp: call_tool_def split: option.splits)
qed

theorem call_id_irrelevant_witness:
  \<open>(let reply = ''<tool_call>{"name": "sum_two_elements", "arguments": {"a": 1234, "b": 5678}, "id": 0}</tool_call>'';
        text0 = ''{"name": "sum_two_elements", "arguments": {"a": 1234, "b": 5678}, "id": 0}'';
        ext0 = test_externals [reply] [(text0, sum_call)];
        ext41 = test_externals [reply] [(text0, sum_call\<lparr>call_id := 41\<rparr>)]
    in react_step ext0 available_tools [] = react_step ext41 available_tools []
       \<and> react_step ext41 available_tools []
          = ([\<lparr>role = ''assistant'', content = reply\<rparr>,
              \<lparr>role = ''user'', content = ''<observation>6912</observation>''\<rparr>],
             Inr (PyInt 6912))
       \<and> call_tool available_tools (sum_call\<lparr>call_id := 0\<rparr>)
          = call_tool available_tools (sum_call\<lparr>call_id := 41\<rparr>))\<close>
proof -
  let ?reply = \<open>''<tool_call>{"name": "sum_two_elements", "arguments": {"a": 1234, "b": 5678}, "id": 0}</tool_call>''\<close>
  let ?text0 = \<open>''{"name": "sum_two_elements", "arguments": {"a": 1234, "b": 5678}, "id": 0}''\<close>
  let ?e0 = "test_externals [?reply] [(?text0, sum_call)]"
  let ?e1 = "test_externals [?reply] [(?text0, sum_call\<lparr>call_id := 41\<rparr>)]"
  have c: "create ?e0 = create ?e1" and f: "float_str ?e0 = float_str ?e1"
    by (simp_all add: test_externals_def)
  have l: "\<forall>s. rel_sum (=) (\<lambda>t1 t2. name t1 = name t2 \<and> arguments t1 = arguments t2)
      (json_loads ?e0 s) (json_loads ?e1 s)"
    by (simp add: test_externals_def table_loads_def)
  have v: "react_step ?e1 available_tools []
      = ([\<lparr>role = ''assistant'', content = ?reply\<rparr>,
          \<lparr>role = ''user'', content = ''<observation>6912</observation>''\<rparr>],
         Inr (PyInt 6912))"
    by (simp add: cell_defs double_defs scenario_defs tool_defs tag_matches.simps str_int_6912)
  from call_id_irrelevant[where tools = available_tools and ?ext1.0 = ?e0 and ?ext2.0 = ?e1
      and h = "[]" and tc = sum_call and i = 0 and j = 41] c f l v
  show ?thesis by simp
qed

section \<open>The digits of an integer and the observation\<close>


























section \<open>The agent loop stays within its budget\<close>

lemma stalled_Stop:
  "stalled cfg st reply = Stop r st' \<Longrightarrow> st' = st \<and> r = Failed (MalformedToolCall reply)"
  by (auto simp: stalled_def split: if_splits)

lemma stalled_messages:
  "stalled cfg st reply = Continue st' \<Longrightarrow> messages st' = messages st @ [corrective_note]"
  by (auto simp: stalled_def split: if_splits)

lemma agent_iteration_Stop:
  "agent_iteration cfg ext tools st = Stop r st' \<Longrightarrow> iteration st' \<le> iteration st + 1"
  by (auto simp: agent_iteration_def Let_def dest!: stalled_Stop
           split: sum.splits list.splits)

lemma requests_append [simp]: "requests (h @ h') = requests h + requests h'"
  by (simp add: requests_def)

lemma requests_Nil [simp]: "requests [] = 0"
  by (simp add: requests_def)

lemma requests_Cons [simp]:
  "requests (m # h) = (if role m = ''assistant'' then 1 else 0) + requests h"
  by (simp add: requests_def)

lemma agent_iteration_requests:
  "agent_iteration cfg ext tools st = Stop r st' \<or> agent_iteration cfg ext tools st = Continue st'
   \<Longrightarrow> requests (messages st') \<le> requests (messages st) + 1"
  by (auto simp: agent_iteration_def Let_def append_assistant_def corrective_note_def
           dest!: stalled_Stop stalled_messages split: sum.splits list.splits)

lemma agent_loop_iteration:
  "iteration (snd (agent_loop cfg ext tools st)) \<le> max (iteration st) (max_iterations cfg)"
proof (induction cfg ext tools st rule: agent_loop.induct)
  case (1 cfg ext tools st)
  show ?case
  proof (cases "max_iterations cfg \<le> iteration st")
    case True
    then show ?thesis by (subst agent_loop.simps) simp
  next
    case False
    show ?thesis
    proof (cases "agent_iteration cfg ext tools st")
      case (Continue st')
      with False "1.IH"[OF False Continue] agent_iteration_Continue[OF Continue] show ?thesis
        by (subst agent_loop.simps) simp
    next
      case (Stop r st')
      with False agent_iteration_Stop[OF Stop] show ?thesis
        by (subst agent_loop.simps) simp
    qed
  qed
qed

lemma agent_loop_requests:
  "requests (messages (snd (agent_loop cfg ext tools st)))
     \<le> requests (messages st) + (max_iterations cfg - iteration st)"
proof (induction cfg ext tools st rule: agent_loop.induct)
  case (1 cfg ext tools st)
  show ?case
  proof (cases "max_iterations cfg \<le> iteration st")
    case True
    then show ?thesis by (subst agent_loop.simps) simp
  next
    case False
    show ?thesis
    proof (cases "agent_iteration cfg ext tools st")
      case (Continue st')
      from Continue have "requests (messages st') \<le> requests (messages st) + 1"
        using agent_iteration_requests by blast
      with False "1.IH"[OF False Continue] agent_iteration_Continue[OF Continue] Continue
      show ?thesis
        by (subst agent_loop.simps) simp
    next
      case (Stop r st')
      from Stop have "requests (messages st') \<le> requests (messages st) + 1"
        using agent_iteration_requests by blast
      with False Stop show ?thesis
        by (subst agent_loop.simps) simp
    qed
  qed
qed

lemma agent_iteration_no_tags:
  assumes "create ext (messages st) = Inr r"
    and "\<not> has_pair ''response'' r" and "\<not> has_pair ''tool_call'' r"
  shows "agent_iteration cfg ext tools st =
     stalled cfg (st\<lparr>messages := append_assistant (messages st) r,
                      iteration := iteration st + 1\<rparr>) r"
  using assms
  by (simp add: agent_iteration_def Let_def extract_tag_content_def
        tag_matches_Nil_iff[symmetric])

lemma agent_loop_no_tags:
  "\<forall>h. \<exists>r. create ext h = Inr r \<and> \<not> has_pair ''response'' r
             \<and> \<not> has_pair ''tool_call'' r \<Longrightarrow>
   fst (agent_loop cfg ext tools st) = Failed IterationBudgetExceeded
     \<or> (\<exists>r. fst (agent_loop cfg ext tools st) = Failed (MalformedToolCall r))"
proof (induction cfg ext tools st rule: agent_loop.induct)
  case (1 cfg ext tools st)
  show ?case
  proof (cases "max_iterations cfg \<le> iteration st")
    case True
    then show ?thesis by (subst agent_loop.simps) simp
  next
    case False
    from spec[OF "1.prems", of "messages st"] obtain r where r: "create ext (messages st) = Inr r"
      "\<not> has_pair ''response'' r" "\<not> has_pair ''tool_call'' r"
      by auto
    let ?st1 = "st\<lparr>messages := append_assistant (messages st) r,
                    iteration := iteration st + 1\<rparr>"
    have it: "agent_iteration cfg ext tools st = stalled cfg ?st1 r"
      using r by (rule agent_iteration_no_tags)
    show ?thesis
    proof (cases "agent_iteration cfg ext tools st")
      case (Continue st')
      from "1.IH"[OF False Continue "1.prems"] have
        "fst (agent_loop cfg ext tools st') = Failed IterationBudgetExceeded
         \<or> (\<exists>r. fst (agent_loop cfg ext tools st') = Failed (MalformedToolCall r))" .
      moreover from False Continue
      have "agent_loop cfg ext tools st = agent_loop cfg ext tools st'"
        by (subst agent_loop.simps) simp
      ultimately show ?thesis by simp
    next
      case (Stop res st')
      with it have "res = Failed (MalformedToolCall r)"
        using stalled_Stop by metis
      moreover from False Stop have "agent_loop cfg ext tools st = (res, st')"
        by (subst agent_loop.simps) simp
      ultimately show ?thesis by simp
    qed
  qed
qed

text \<open>
  C7. The loop takes a maximum number of iterations from its configuration (10 in the
  default one) and always ends: it is a total function, its recursion descends on the
  iterations left. A run makes at most that many requests to the model; a run that has
  used its iterations ends with IterationBudgetExceeded, without a further request and
  with the conversation as it is; and when every reply holds neither a \<^verbatim>\<open>response\<close> nor a
  \<^verbatim>\<open>tool_call\<close> pair, the run ends with IterationBudgetExceeded or with MalformedToolCall
  carrying the raw reply.
\<close>

theorem agent_loop_within_budget:
  "max_iterations default_config = 10
   \<and> iteration (snd (agent_loop cfg ext tools st)) \<le> max (iteration st) (max_iterations cfg)
   \<and> requests (messages (snd (agent_run_on cfg ext tools p q))) \<le> max_iterations cfg
   \<and> (max_iterations cfg \<le> iteration st \<longrightarrow>
        agent_loop cfg ext tools st = (Failed IterationBudgetExceeded, st))
   \<and> ((\<forall>h. \<exists>r. create ext h = Inr r \<and> \<not> has_pair ''response'' r
              \<and> \<not> has_pair ''tool_call'' r) \<longrightarrow>
        fst (agent_loop cfg ext tools st) = Failed IterationBudgetExceeded
        \<or> (\<exists>r. fst (agent_loop cfg ext tools st) = Failed (MalformedToolCall r)))"
proof -
  have a: "max_iterations default_config = 10"
    by (simp add: default_config_def)
  have b: "requests (messages (snd (agent_run_on cfg ext tools p q))) \<le> max_iterations cfg"
    using agent_loop_requests[of cfg ext tools
        "\<lparr>messages = initial_history p q, iteration = 0, stalls = 0\<rparr>"]
    by (simp add: agent_run_on_def initial_history_def)
  have c: "max_iterations cfg \<le> iteration st \<longrightarrow>
        agent_loop cfg ext tools st = (Failed IterationBudgetExceeded, st)"
    by (subst agent_loop.simps) simp
  from a b c agent_loop_iteration agent_loop_no_tags show ?thesis
    by blast
qed

theorem agent_loop_within_budget_witness:
  "(\<forall>h. \<exists>r. create \<lparr>create = (\<lambda>h. Inr ''hm''), json_loads = table_loads [],
                        float_str = (\<lambda>r. ''float'')\<rparr> h = Inr r
          \<and> \<not> has_pair ''response'' r \<and> \<not> has_pair ''tool_call'' r)
   \<and> agent_run_on default_config
        \<lparr>create = (\<lambda>h. Inr ''hm''), json_loads = table_loads [], float_str = (\<lambda>r. ''float'')\<rparr>
        available_tools ''p'' ''q''
      = (Failed (MalformedToolCall ''hm''),
         \<lparr>messages = initial_history ''p'' ''q''
             @ [\<lparr>role = ''assistant'', content = ''hm''\<rparr>, corrective_note,
                \<lparr>role = ''assistant'', content = ''hm''\<rparr>],
          iteration = 2, stalls = 1\<rparr>)
   \<and> agent_run_on \<lparr>max_iterations = 1, stall_retries = 1\<rparr>
        \<lparr>create = (\<lambda>h. Inr ''hm''), json_loads = table_loads [], float_str = (\<lambda>r. ''float'')\<rparr>
        available_tools ''p'' ''q''
      = (Failed IterationBudgetExceeded,
         \<lparr>messages = initial_history ''p'' ''q''
             @ [\<lparr>role = ''assistant'', content = ''hm''\<rparr>, corrective_note],
          iteration = 1, stalls = 1\<rparr>)
   \<and> requests (messages (snd (agent_run_on default_config
        \<lparr>create = (\<lambda>h. Inr ''hm''), json_loads = table_loads [], float_str = (\<lambda>r. ''float'')\<rparr>
        available_tools ''p'' ''q''))) \<le> max_iterations default_config
   \<and> (fst (agent_loop default_config
        \<lparr>create = (\<lambda>h. Inr ''hm''), json_loads = table_loads [], float_str = (\<lambda>r. ''float'')\<rparr>
        available_tools \<lparr>messages = [], iteration = 0, stalls = 0\<rparr>)
          = Failed IterationBudgetExceeded
        \<or> (\<exists>r. fst (agent_loop default_config
        \<lparr>create = (\<lambda>h. Inr ''hm''), json_loads = table_loads [], float_str = (\<lambda>r. ''float'')\<rparr>
        available_tools \<lparr>messages = [], iteration = 0, stalls = 0\<rparr>)
          = Failed (MalformedToolCall r)))"
proof -
  let ?ext = "\<lparr>create = (\<lambda>h. Inr ''hm''), json_loads = table_loads [],
               float_str = (\<lambda>r. ''float'')\<rparr>"
  have n1: "\<not> has_pair ''response'' ''hm''"
    unfolding tag_matches_Nil_iff[symmetric]
    by (simp add: tag_matches.simps open_tag_def)
  have n2: "\<not> has_pair ''tool_call'' ''hm''"
    unfolding tag_matches_Nil_iff[symmetric]
    by (simp add: tag_matches.simps open_tag_def)
  from n1 n2 have h: "\<forall>h. \<exists>r. create ?ext h = Inr r
      \<and> \<not> has_pair ''response'' r \<and> \<not> has_pair ''tool_call'' r"
    by simp
  have r1: "agent_run_on default_config ?ext available_tools ''p'' ''q''
      = (Failed (MalformedToolCall ''hm''),
         \<lparr>messages = initial_history ''p'' ''q''
             @ [\<lparr>role = ''assistant'', content = ''hm''\<rparr>, corrective_note,
                \<lparr>role = ''assistant'', content = ''hm''\<rparr>],
          iteration = 2, stalls = 1\<rparr>)"
    by (simp add: agent_run_on_def agent_loop.simps agent_iteration_def default_config_def
          stalled_def extract_tag_content_def tag_matches.simps open_tag_def
          append_assistant_def)
  have r2: "agent_run_on \<lparr>max_iterations = 1, stall_retries = 1\<rparr> ?ext available_tools ''p'' ''q''
      = (Failed IterationBudgetExceeded,
         \<lparr>messages = initial_history ''p'' ''q''
             @ [\<lparr>role = ''assistant'', content = ''hm''\<rparr>, corrective_note],
          iteration = 1, stalls = 1\<rparr>)"
    by (simp add: agent_run_on_def agent_loop.simps agent_iteration_def
          stalled_def extract_tag_content_def tag_matches.simps open_tag_def
          append_assistant_def)
  from h r1 r2
    agent_loop_within_budget[where cfg = default_config and ext = ?ext
      and tools = available_tools and p = "''p''" and q = "''q''"
      and st = "\<lparr>messages = [], iteration = 0, stalls = 0\<rparr>"]
  show ?thesis by blast
qed

section \<open>The arithmetic of the tools and the walkthrough's example\<close>

text \<open>
  Bounds on the exponential from its Taylor polynomial, to place \<open>ln 34560\<close> between two
  decimals.
\<close>

lemma exp_lower_taylor:
  fixes x :: real
  assumes "0 \<le> x"
  shows "(\<Sum>m<n. x ^ m / fact m) \<le> exp x"
proof -
  from Maclaurin_exp_le[of x n] obtain t where
    t: "exp x = (\<Sum>m<n. x ^ m / fact m) + (exp t / fact n) * x ^ n"
    by blast
  from assms have "0 \<le> (exp t / fact n) * x ^ n" by simp
  with t show ?thesis by linarith
qed

lemma exp_upper_taylor:
  fixes x :: real
  assumes "0 \<le> x" "x \<le> 1"
  shows "exp x \<le> (\<Sum>m<n. x ^ m / fact m) + 3 * x ^ n / fact n"
proof -
  from Maclaurin_exp_le[of x n] obtain t where
    t: "\<bar>t\<bar> \<le> \<bar>x\<bar>" "exp x = (\<Sum>m<n. x ^ m / fact m) + (exp t / fact n) * x ^ n"
    by blast
  from t(1) assms have "t \<le> 1" by linarith
  then have "exp t \<le> exp 1" by simp
  also have "exp (1::real) \<le> 3" by (rule exp_le)
  finally have "exp t \<le> 3" .
  then have "exp t * (x ^ n / fact n) \<le> 3 * (x ^ n / fact n)"
    using assms(1) by (intro mult_right_mono) simp_all
  with t(2) show ?thesis by (simp add: field_simps)
qed

lemma taylor10: "(\<Sum>m<10. (x::real) ^ m / fact m) =
  1 + x + x^2/2 + x^3/6 + x^4/24 + x^5/120 + x^6/720 + x^7/5040 + x^8/40320 + x^9/362880"
  by (simp add: numeral_eq_Suc fact_numeral lessThan_Suc) 

lemma fact10: "fact 10 = (3628800::real)"
  by (simp add: fact_numeral)

lemma exp_lo: "exp (13063/20000 :: real) \<le> 120099019/62500000"
proof -
  have "exp (13063/20000 :: real) \<le> (\<Sum>m<10. (13063/20000) ^ m / fact m) + 3 * (13063/20000) ^ 10 / fact 10"
    by (rule exp_upper_taylor) simp_all
  also have "\<dots> \<le> 120099019/62500000"
    unfolding taylor10 fact10 by (simp add: power_divide)
  finally show ?thesis .
qed

lemma exp_hi: "1921596301/1000000000 \<le> exp (20901/32000 :: real)"
proof -
  have "(1921596301/1000000000 :: real) \<le> (\<Sum>m<10. (20901/32000) ^ m / fact m)"
    unfolding taylor10 by (simp add: power_divide)
  also have "\<dots> \<le> exp (20901/32000 :: real)"
    by (rule exp_lower_taylor) simp
  finally show ?thesis .
qed

lemma ln_34560_bounds: "10.4504 < ln (34560::real) \<and> ln (34560::real) < 10.4505"
proof
  have "exp (10.4504::real) = exp (16 * (13063/20000))" by simp
  also have "\<dots> = exp (13063/20000 :: real) ^ 16"
    using exp_of_nat_mult[of 16 "13063/20000 :: real"] by simp
  also have "\<dots> \<le> (120099019/62500000) ^ 16"
    by (rule power_mono[OF exp_lo]) simp
  also have "\<dots> < (34560::real)" by (simp add: power_divide)
  finally have "exp (10.4504::real) < 34560" .
  then have "ln (exp (10.4504::real)) < ln 34560"
    by (subst ln_less_cancel_iff) simp_all
  then show "10.4504 < ln (34560::real)" by simp
next
  have "(34560::real) < (1921596301/1000000000) ^ 16" by (simp add: power_divide)
  also have "\<dots> \<le> exp (20901/32000 :: real) ^ 16"
    by (rule power_mono[OF exp_hi]) simp
  also have "\<dots> = exp (16 * (20901/32000 :: real))"
    using exp_of_nat_mult[of 16 "20901/32000 :: real"] by simp
  also have "\<dots> = exp (10.4505::real)" by simp
  finally have "(34560::real) < exp 10.4505" .
  then have "ln (34560::real) < ln (exp (10.4505::real))"
    by (subst ln_less_cancel_iff) simp_all
  then show "ln (34560::real) < 10.4505" by simp
qed

text \<open>
  C4, as the code has it. \<^verbatim>\<open>sum_two_elements\<close> is the sum and
  \<^verbatim>\<open>multiply_two_elements\<close> the product of its two integers, and for \<open>x > 0\<close>
  \<^verbatim>\<open>compute_log(x)\<close> is the natural logarithm of \<open>x\<close>. On the example of the walkthrough
  the tool calls give 6912, then 34560, then \<open>ln 34560\<close>, the values its three asserts
  expect; and \<open>ln 34560\<close> lies between 10.4504 and 10.4505.
\<close>

theorem arithmetic_tools_reference:
  "sum_two_elements a b = a + b
   \<and> multiply_two_elements a b = a * b
   \<and> (0 < x \<longrightarrow> compute_log x = PyFloat (ln (real_of_int x)))
   \<and> sum_two_elements 1234 5678 = 6912
   \<and> multiply_two_elements 6912 5 = 34560
   \<and> compute_log 34560 = PyFloat (ln 34560)
   \<and> 10.4504 < ln (34560::real) \<and> ln (34560::real) < 10.4505
   \<and> call_tool available_tools
        \<lparr>name = ''sum_two_elements'', arguments = [(''a'', 1234), (''b'', 5678)], call_id = i\<rparr>
      = Inr (PyInt 6912)
   \<and> call_tool available_tools
        \<lparr>name = ''multiply_two_elements'', arguments = [(''a'', 6912), (''b'', 5)], call_id = j\<rparr>
      = Inr (PyInt 34560)
   \<and> call_tool available_tools
        \<lparr>name = ''compute_log'', arguments = [(''x'', 34560)], call_id = k\<rparr>
      = Inr (PyFloat (ln 34560))
   \<and> py_eq (PyInt 6912) (PyInt (1234 + 5678))
   \<and> py_eq (PyInt 34560) (PyInt ((1234 + 5678) * 5))
   \<and> py_eq (PyFloat (ln 34560)) (PyFloat (ln (real_of_int ((1234 + 5678) * 5))))"
  using ln_34560_bounds
  by (simp add: call_sum_two_elements call_multiply_two_elements call_compute_log
        sum_two_elements_def multiply_two_elements_def compute_log_def)

theorem arithmetic_tools_reference_witness:
  "(0::int) < 34560
   \<and> compute_log 34560 = PyFloat (ln (real_of_int 34560))
   \<and> sum_two_elements 1234 5678 = 1234 + 5678
   \<and> multiply_two_elements (sum_two_elements 1234 5678) 5 = 34560
   \<and> 10.4504 < ln (34560::real) \<and> ln (34560::real) < 10.4505"
  using arithmetic_tools_reference[of 1234 5678 34560]
    arithmetic_tools_reference[of 6912 5 34560]
  by simp

text \<open>
  C4 as the spec words it gives the logarithm as 10.4501: the value the tool returns is
  farther than 0.0003 from that.
\<close>

theorem scenario_a_log_counterexample:
  "compute_log 34560 = PyFloat (ln 34560) \<and> \<not> \<bar>ln (34560::real) - 10.4501\<bar> \<le> 0.0003"
  using ln_34560_bounds by (simp add: compute_log_def)

text \<open>
  The walkthrough on its example, with the model's four replies scripted: every assert
  holds, the three observations are appended, and the last reply is the result.
\<close>

lemma str_int_34560: "str_int 34560 = Inr ''34560''"
  by (simp add: str_int_def int_max_str_digits_def decimal_int_def decimal_nat.simps)

lemma walkthrough_scenario_a:
  "walkthrough scenario_a ''p'' ''q''
     = (initial_history ''p'' ''q''
          @ [\<lparr>role = ''assistant'', content = scenario_a_replies ! 0\<rparr>,
             \<lparr>role = ''user'', content = ''<observation>6912</observation>''\<rparr>,
             \<lparr>role = ''assistant'', content = scenario_a_replies ! 1\<rparr>,
             \<lparr>role = ''user'', content = ''<observation>34560</observation>''\<rparr>,
             \<lparr>role = ''assistant'', content = scenario_a_replies ! 2\<rparr>,
             \<lparr>role = ''user'', content = ''<observation>float</observation>''\<rparr>],
        Inr ''<response>The logarithm is about 10.45</response>'')"
  by (simp add: walkthrough_def cell_defs double_defs scenario_defs tool_defs
        compute_log_def tag_matches.simps str_int_6912 str_int_34560)

end
